theory Spec2Isabelle
  imports Complex_Main
begin

section \<open>Values and errors of the host language\<close>

text \<open>
  A run-time value of the host language, as far as the program inspects one: the fields
  of a thrown error, and what \<^verbatim>\<open>JSON.parse\<close> returns. \<open>JUndefined\<close> is the value of a
  property that is not there.
\<close>

datatype jsval =
    JUndefined
  | JNull
  | JBool bool
  | JNum int
  | JStr string
  | JArr "jsval list"
  | JObj "(string \<times> jsval) list"

text \<open>
  A thrown error: \<^verbatim>\<open>error.status\<close>, \<^verbatim>\<open>error.code\<close> and \<^verbatim>\<open>error.message\<close>. The
  message of an error object is a string when it is there.
\<close>

record js_error =
  err_status :: jsval
  err_code :: jsval
  err_message :: "string option"

definition TypeError :: "string \<Rightarrow> js_error" where
  "TypeError msg = \<lparr>err_status = JUndefined, err_code = JUndefined, err_message = Some msg\<rparr>"

definition SyntaxError :: "string \<Rightarrow> js_error" where
  "SyntaxError msg = \<lparr>err_status = JUndefined, err_code = JUndefined, err_message = Some msg\<rparr>"

text \<open>The member of an object, \<^verbatim>\<open>undefined\<close> when it has none of that name.\<close>

definition own_property :: "(string \<times> jsval) list \<Rightarrow> string \<Rightarrow> jsval" where
  "own_property kvs k = (case map_of kvs k of None \<Rightarrow> JUndefined | Some v \<Rightarrow> v)"

text \<open>
  Property access \<^verbatim>\<open>v.k\<close>: a TypeError on \<^verbatim>\<open>null\<close> and \<^verbatim>\<open>undefined\<close>, the member of an
  object, \<^verbatim>\<open>undefined\<close> otherwise.
\<close>

fun get_prop :: "jsval \<Rightarrow> string \<Rightarrow> js_error + jsval" where
  "get_prop JUndefined k = Inl (TypeError ''Cannot read properties of undefined'')"
| "get_prop JNull k = Inl (TypeError ''Cannot read properties of null'')"
| "get_prop (JObj kvs) k = Inr (own_property kvs k)"
| "get_prop v k = Inr JUndefined"

text \<open>
  Whether a value counts as true in a condition and on the left of \<^verbatim>\<open>||\<close>: not
  \<^verbatim>\<open>undefined\<close>, \<^verbatim>\<open>null\<close>, \<^verbatim>\<open>false\<close>, the number 0 or the empty string.
\<close>

fun truthy :: "jsval \<Rightarrow> bool" where
  "truthy JUndefined = False"
| "truthy JNull = False"
| "truthy (JBool b) = b"
| "truthy (JNum n) = (n \<noteq> 0)"
| "truthy (JStr s) = (s \<noteq> [])"
| "truthy (JArr vs) = True"
| "truthy (JObj kvs) = True"

text \<open>\<^verbatim>\<open>s.includes(pat)\<close>: \<open>pat\<close> occurs in \<open>s\<close> as a contiguous run.\<close>

fun includes_str :: "string \<Rightarrow> string \<Rightarrow> bool" where
  "includes_str [] pat = (pat = [])"
| "includes_str (c # cs) pat = (take (length pat) (c # cs) = pat \<or> includes_str cs pat)"


section \<open>services/geminiService.ts: the retry wrapper\<close>

definition MAX_RETRIES :: nat where
  "MAX_RETRIES = 3"

definition INITIAL_BACKOFF_MS :: nat where
  "INITIAL_BACKOFF_MS = 2000"

text \<open>
  \<^verbatim>\<open>isRateLimit\<close> of \<^verbatim>\<open>callWithRetry\<close>:
  \<^verbatim>\<open>error?.status === 429 || error?.code === 429 || error?.message?.includes('429')
      || error?.status === 'RESOURCE_EXHAUSTED'\<close>.
\<close>

definition isRateLimit :: "js_error \<Rightarrow> bool" where
  "isRateLimit error \<longleftrightarrow>
     err_status error = JNum 429 \<or>
     err_code error = JNum 429 \<or>
     (case err_message error of None \<Rightarrow> False | Some m \<Rightarrow> includes_str m ''429'') \<or>
     err_status error = JStr ''RESOURCE_EXHAUSTED''"

text \<open>
  \<^verbatim>\<open>callWithRetry(fn, retries, delay)\<close>. The wrapped thunk \<open>fn\<close> is called once per
  attempt; \<open>fn k\<close> is the outcome of its call number \<open>k\<close> (counted from 0), \<open>Inl\<close> a
  rejection. \<open>random k\<close> is the value \<^verbatim>\<open>Math.random()\<close> returns during attempt \<open>k\<close>.
  The result pairs what the wrapper returns or throws with the waits it made, in
  milliseconds and in order; every wait is followed by exactly one further call.
\<close>

fun callWithRetry ::
  "(nat \<Rightarrow> js_error + 'a) \<Rightarrow> (nat \<Rightarrow> real) \<Rightarrow> nat \<Rightarrow> nat \<Rightarrow> nat \<Rightarrow> (js_error + 'a) \<times> real list"
where
  "callWithRetry fn random k retries delay =
     (case fn k of
        Inr v \<Rightarrow> (Inr v, [])
      | Inl error \<Rightarrow>
          if isRateLimit error \<and> retries > 0 then
            (let jitter = random k * 500;
                 actualDelay = real delay + jitter;
                 rest = callWithRetry fn random (Suc k) (retries - 1) (delay * 2)
             in (fst rest, actualDelay # snd rest))
          else (Inl error, []))"

text \<open>The default arguments: \<^verbatim>\<open>retries = MAX_RETRIES, delay = INITIAL_BACKOFF_MS\<close>.\<close>

definition callWithRetry_default ::
  "(nat \<Rightarrow> js_error + 'a) \<Rightarrow> (nat \<Rightarrow> real) \<Rightarrow> (js_error + 'a) \<times> real list"
where
  "callWithRetry_default fn random = callWithRetry fn random 0 MAX_RETRIES INITIAL_BACKOFF_MS"


section \<open>services/geminiService.ts: thought and speech\<close>

text \<open>
  A string that the program hands to \<^verbatim>\<open>JSON.parse\<close>, by what the parser makes of it: the
  empty string, a non-empty string that is not JSON, or the serialisation of a value.
  Only the empty string is falsy.
\<close>

datatype 'a json_text = Empty_text | Malformed_text | Json_text 'a

fun JSON_parse :: "'a json_text \<Rightarrow> js_error + 'a" where
  "JSON_parse Empty_text = Inl (SyntaxError ''Unexpected end of JSON input'')"
| "JSON_parse Malformed_text = Inl (SyntaxError ''Unexpected token'')"
| "JSON_parse (Json_text v) = Inr v"

text \<open>
  The thunk that \<^verbatim>\<open>generateAgentThought\<close> passes to \<^verbatim>\<open>callWithRetry\<close>, on the outcome
  of its \<^verbatim>\<open>generateContent\<close> call: a rejection, or a response whose \<^verbatim>\<open>text\<close> is
  undefined or a string. \<^verbatim>\<open>response.text || "{}"\<close> parses to the empty object. The
  parsed value is untyped: \<^verbatim>\<open>data.thought || "Thinking..."\<close> is \<^verbatim>\<open>data.thought\<close> itself
  whenever that is truthy, whatever kind of value it is.
\<close>

definition thought_attempt :: "js_error + jsval json_text option \<Rightarrow> js_error + jsval" where
  "thought_attempt outcome =
     (case outcome of
        Inl e \<Rightarrow> Inr (JStr ''Thinking...'')
      | Inr text \<Rightarrow>
          (case JSON_parse (case text of None \<Rightarrow> Json_text (JObj [])
                                       | Some Empty_text \<Rightarrow> Json_text (JObj [])
                                       | Some t \<Rightarrow> t) of
             Inl e \<Rightarrow> Inr (JStr ''Thinking...'')
           | Inr data \<Rightarrow>
               (case get_prop data ''thought'' of
                  Inl e \<Rightarrow> Inr (JStr ''Thinking...'')
                | Inr v \<Rightarrow> Inr (if truthy v then v else JStr ''Thinking...''))))"

text \<open>
  \<^verbatim>\<open>generateAgentThought\<close>: \<open>backend k\<close> is the outcome of the \<open>k\<close>-th
  \<^verbatim>\<open>generateContent\<close> call. The result is what the promise settles to, with the waits.
\<close>

definition generateAgentThought ::
  "(nat \<Rightarrow> js_error + jsval json_text option) \<Rightarrow> (nat \<Rightarrow> real) \<Rightarrow> (js_error + jsval) \<times> real list"
where
  "generateAgentThought backend random =
     callWithRetry_default (\<lambda>k. thought_attempt (backend k)) random"

text \<open>
  What \<^verbatim>\<open>generateContentStream\<close> resolves to: an asynchronous sequence of chunks, each
  with a \<^verbatim>\<open>text\<close> that may be undefined, which ends normally or by throwing.
\<close>

record content_stream =
  chunks :: "string option list"
  failure :: "js_error option"

definition stream_error_notice :: string where
  "stream_error_notice = ''Error: Service busy. Please try again later.''"

text \<open>\<^verbatim>\<open>if (text) yield text\<close> over the chunks.\<close>

fun yielded :: "string option list \<Rightarrow> string list" where
  "yielded [] = []"
| "yielded (None # cs) = yielded cs"
| "yielded (Some t # cs) = (if t = [] then yielded cs else t # yielded cs)"

text \<open>
  \<^verbatim>\<open>generateAgentSpeechStream\<close>, as the fragments the generator yields, in order, and how
  it ends: \<open>None\<close> when it returns, \<open>Some e\<close> when it throws \<open>e\<close> to its consumer.
  \<open>connect k\<close> is the outcome of the \<open>k\<close>-th \<^verbatim>\<open>generateContentStream\<close> call.
\<close>

definition generateAgentSpeechStream ::
  "(nat \<Rightarrow> js_error + content_stream) \<Rightarrow> (nat \<Rightarrow> real) \<Rightarrow> string list \<times> js_error option"
where
  "generateAgentSpeechStream connect random =
     (case fst (callWithRetry_default connect random) of
        Inl error \<Rightarrow> ([stream_error_notice], None)
      | Inr result \<Rightarrow>
          (case failure result of
             None \<Rightarrow> (yielded (chunks result), None)
           | Some error \<Rightarrow> (yielded (chunks result) @ [stream_error_notice], None)))"


section \<open>types.ts: the data model\<close>

datatype Language = En | Zh

datatype AppStage = Topic | Roles | Meeting | Report

datatype MessageType = Speech | System

record Agent =
  agent_id :: string
  agent_name :: string
  agent_role :: string
  personality :: string
  avatarId :: nat

record Message =
  message_id :: string
  senderId :: string
  senderName :: string
  content :: string
  thought :: "string option"
  timestamp :: nat
  message_type :: MessageType

record MeetingState =
  topic :: string
  agents :: "Agent list"
  messages :: "Message list"
  isActive :: bool
  isGenerating :: bool
  language :: Language


section \<open>App: state, localized text, helpers\<close>

text \<open>A callback handed to \<^verbatim>\<open>setTimeout\<close> and not yet run, with its delay in milliseconds.\<close>

datatype timer_callback = Resume_auto_discussion

text \<open>
  The state of the component: the React cells the meeting logic reads and writes, the
  mutable \<^verbatim>\<open>turnCountRef.current\<close>, and the pending timers of \<^verbatim>\<open>handleUserMessage\<close>.
\<close>

record App =
  stage :: AppStage
  state :: MeetingState
  inputValue :: string
  thinkingAgentId :: "string option"
  isSummaryOpen :: bool
  turnCount :: nat
  timers :: "(nat \<times> timer_callback) list"

definition INITIAL_STATE :: MeetingState where
  "INITIAL_STATE = \<lparr>topic = [], agents = [], messages = [], isActive = False,
     isGenerating = False, language = En\<rparr>"

text \<open>Entries of the table \<^verbatim>\<open>TEXT\<close>; the Chinese strings are given as their UTF-8 bytes.\<close>

definition hostRole :: "Language \<Rightarrow> string" where
  "hostRole l = (case l of
     En \<Rightarrow> ''Host / Moderator''
   | Zh \<Rightarrow> [CHR 0xE4, CHR 0xB8, CHR 0xBB, CHR 0xE6, CHR 0x8C, CHR 0x81, CHR 0xE4, CHR 0xBA, CHR 0xBA,
           CHR 0x20, CHR 0x2F, CHR 0x20, CHR 0xE7, CHR 0x89, CHR 0x88, CHR 0xE4, CHR 0xB8, CHR 0xBB])"

definition assistantName :: "Language \<Rightarrow> string" where
  "assistantName l = (case l of
     En \<Rightarrow> ''Meeting Assistant''
   | Zh \<Rightarrow> [CHR 0xE4, CHR 0xBC, CHR 0x9A, CHR 0xE8, CHR 0xAE, CHR 0xAE, CHR 0xE5, CHR 0x8A, CHR 0xA9,
           CHR 0xE6, CHR 0x89, CHR 0x8B])"

definition restoreFail :: "Language \<Rightarrow> string" where
  "restoreFail l = (case l of
     En \<Rightarrow> ''Could not restore session.''
   | Zh \<Rightarrow> [CHR 0xE6, CHR 0x97, CHR 0xA0, CHR 0xE6, CHR 0xB3, CHR 0x95, CHR 0xE6, CHR 0x81, CHR 0xA2,
           CHR 0xE5, CHR 0xA4, CHR 0x8D, CHR 0xE4, CHR 0xBC, CHR 0x9A, CHR 0xE8, CHR 0xAF, CHR 0x9D,
           CHR 0xE3, CHR 0x80, CHR 0x82])"

text \<open>\<^verbatim>\<open>n.toString()\<close> for a non-negative integer: its decimal digits.\<close>

fun toString :: "nat \<Rightarrow> string" where
  "toString n =
     (if n < 10 then [''0123456789'' ! n]
      else toString (n div 10) @ [''0123456789'' ! (n mod 10)])"

text \<open>The content of the message that \<^verbatim>\<open>startMeeting\<close> seeds the transcript with.\<close>

definition welcome_content :: "Language \<Rightarrow> string \<Rightarrow> string" where
  "welcome_content l tp = (case l of
     Zh \<Rightarrow> [CHR 0xE4, CHR 0xBC, CHR 0x9A, CHR 0xE8, CHR 0xAE, CHR 0xAE, CHR 0xE5, CHR 0xBC, CHR 0x80,
            CHR 0xE5, CHR 0xA7, CHR 0x8B, CHR 0xEF, CHR 0xBC, CHR 0x8C, CHR 0xE8, CHR 0xAF, CHR 0x9D,
            CHR 0xE9, CHR 0xA2, CHR 0x98, CHR 0x3A, CHR 0x20, CHR 0x22]
          @ tp @
           [CHR 0x22, CHR 0x2E, CHR 0x20, CHR 0xE4, CHR 0xB8, CHR 0xBB, CHR 0xE6, CHR 0x8C, CHR 0x81,
            CHR 0xE4, CHR 0xBA, CHR 0xBA, CHR 0xEF, CHR 0xBC, CHR 0x88, CHR 0xE4, CHR 0xBD, CHR 0xA0,
            CHR 0xEF, CHR 0xBC, CHR 0x89, CHR 0xE8, CHR 0xAF, CHR 0xB7, CHR 0xE5, CHR 0x8F, CHR 0x91,
            CHR 0xE8, CHR 0xA8, CHR 0x80, CHR 0xE3, CHR 0x80, CHR 0x82]
   | En \<Rightarrow> ''Meeting started on topic: '' @ [CHR 0x22] @ tp @ [CHR 0x22]
          @ ''. The moderator (You) has the floor.'')"


section \<open>App: the roster\<close>

text \<open>
  \<^verbatim>\<open>handleAddAgent\<close>; \<open>now\<close> is the value of \<^verbatim>\<open>Date.now()\<close> and \<open>r\<close> that of
  \<^verbatim>\<open>Math.random()\<close>. The identifier of the new agent is made of the time alone.
\<close>

definition handleAddAgent :: "nat \<Rightarrow> real \<Rightarrow> App \<Rightarrow> App" where
  "handleAddAgent now r app =
     (let newAgent =
        \<lparr>agent_id = ''agent-'' @ toString now,
         agent_name = (if language (state app) = Zh
           then [CHR 0xE6, CHR 0x96, CHR 0xB0, CHR 0xE5, CHR 0x8F, CHR 0x82, CHR 0xE4, CHR 0xB8, CHR 0x8E,
                 CHR 0xE8, CHR 0x80, CHR 0x85]
           else ''New Participant''),
         agent_role = (if language (state app) = Zh
           then [CHR 0xE8, CHR 0xA7, CHR 0x82, CHR 0xE5, CHR 0xAF, CHR 0x9F, CHR 0xE5, CHR 0x91, CHR 0x98]
           else ''Observer''),
         personality = (if language (state app) = Zh
           then [CHR 0xE5, CHR 0xAE, CHR 0xA2, CHR 0xE8, CHR 0xA7, CHR 0x82, CHR 0xE7, CHR 0x9A, CHR 0x84,
                 CHR 0xEF, CHR 0xBC, CHR 0x8C, CHR 0xE5, CHR 0xA5, CHR 0xBD, CHR 0xE5, CHR 0xA5, CHR 0x87,
                 CHR 0xE7, CHR 0x9A, CHR 0x84]
           else ''Objective, curious''),
         avatarId = nat \<lfloor>r * 100\<rfloor>\<rparr>
      in app\<lparr>state := (state app)\<lparr>agents := agents (state app) @ [newAgent]\<rparr>\<rparr>)"


section \<open>App: starting the meeting\<close>

text \<open>\<^verbatim>\<open>startMeeting\<close>; \<open>now\<close> is the value of \<^verbatim>\<open>Date.now()\<close>.\<close>

definition startMeeting :: "nat \<Rightarrow> App \<Rightarrow> App" where
  "startMeeting now app =
     (if length (agents (state app)) = 0 then app
      else app\<lparr>stage := Meeting,
                state := (state app)\<lparr>
                  messages := [\<lparr>message_id = ''system-start'', senderId = ''system'',
                                 senderName = ''System'',
                                 content = welcome_content (language (state app)) (topic (state app)),
                                 thought = None, timestamp = now, message_type = System\<rparr>],
                  isActive := True\<rparr>,
                turnCount := 0\<rparr>)"

text \<open>
  Modelled from the spec: the \<^verbatim>\<open>Button\<close> component (\<^verbatim>\<open>components/Button\<close>, which is not
  among the sources). The roster guard is "fewer than 2 blocks the transition": a button
  whose \<^verbatim>\<open>disabled\<close> property is true does not run its \<^verbatim>\<open>onClick\<close> handler.
\<close>

definition Button_click :: "bool \<Rightarrow> (App \<Rightarrow> App) \<Rightarrow> App \<Rightarrow> App" where
  "Button_click disabled onClick app = (if disabled then app else onClick app)"

text \<open>
  The Start Meeting button of \<^verbatim>\<open>renderRolesStage\<close>:
  \<^verbatim>\<open>onClick={startMeeting} disabled={state.agents.length < 2}\<close>.
\<close>

definition click_Start_Meeting :: "nat \<Rightarrow> App \<Rightarrow> App" where
  "click_Start_Meeting now app =
     Button_click (length (agents (state app)) < 2) (startMeeting now) app"


section \<open>App: the transcript\<close>

text \<open>\<^verbatim>\<open>addMessage\<close>: append, and count the turn.\<close>

definition addMessage :: "Message \<Rightarrow> App \<Rightarrow> App" where
  "addMessage msg app =
     app\<lparr>state := (state app)\<lparr>messages := messages (state app) @ [msg]\<rparr>,
         turnCount := turnCount app + 1\<rparr>"

text \<open>\<^verbatim>\<open>updateLastMessage\<close>: replace the content of the entry at the last index.\<close>

definition updateLastMessage :: "string \<Rightarrow> App \<Rightarrow> App" where
  "updateLastMessage c app =
     (let msgs = messages (state app) in
      if length msgs = 0 then app
      else app\<lparr>state := (state app)\<lparr>
             messages := msgs[length msgs - 1 := (msgs ! (length msgs - 1))\<lparr>content := c\<rparr>]\<rparr>\<rparr>)"

text \<open>
  \<^verbatim>\<open>handleUserMessage\<close>. \<open>trim\<close> is the platform's \<^verbatim>\<open>String.prototype.trim\<close>; \<open>now_id\<close>
  and \<open>now_ts\<close> are the two readings of \<^verbatim>\<open>Date.now()\<close>. The callback given to
  \<^verbatim>\<open>setTimeout\<close> is queued with its delay.
\<close>

definition handleUserMessage :: "(string \<Rightarrow> string) \<Rightarrow> nat \<Rightarrow> nat \<Rightarrow> App \<Rightarrow> App" where
  "handleUserMessage trim now_id now_ts app =
     (if trim (inputValue app) = [] then app
      else
        (let app1 = app\<lparr>state := (state app)\<lparr>isActive := False\<rparr>\<rparr>;
             newMessage = \<lparr>message_id = toString now_id, senderId = ''user'',
                           senderName = hostRole (language (state app)),
                           content = inputValue app, thought = None,
                           timestamp = now_ts, message_type = Speech\<rparr>;
             app2 = addMessage newMessage app1;
             app3 = app2\<lparr>inputValue := []\<rparr>
         in app3\<lparr>timers := timers app3 @ [(2000, Resume_auto_discussion)]\<rparr>))"

text \<open>Running a queued callback: \<^verbatim>\<open>setState(prev => ({ ...prev, isActive: true }))\<close>.\<close>

fun run_callback :: "timer_callback \<Rightarrow> App \<Rightarrow> App" where
  "run_callback Resume_auto_discussion app = app\<lparr>state := (state app)\<lparr>isActive := True\<rparr>\<rparr>"


section \<open>App: the scheduler turn\<close>

text \<open>
  \<^verbatim>\<open>processNextTurn\<close> is an asynchronous function. It reads \<^verbatim>\<open>state\<close>, \<^verbatim>\<open>stage\<close> and
  \<^verbatim>\<open>isSummaryOpen\<close> from the values captured when it was created, and writes through
  functional updates of the live state. Its run is therefore a fixed sequence of steps:
  updates of the live state, and the points where it awaits something and other handlers
  may run.
\<close>

datatype call =
    PhaseCheck nat
  | Delay nat
  | Thought string
  | SpeechNext

datatype action =
    SetIsGenerating bool
  | AddMessage Message
  | UpdateLastMessage string
  | SetThinkingAgentId "string option"

datatype step = Do action | Await call

datatype completion = NotStarted | Returned | Threw js_error

fun apply_action :: "action \<Rightarrow> App \<Rightarrow> App" where
  "apply_action (SetIsGenerating b) app = app\<lparr>state := (state app)\<lparr>isGenerating := b\<rparr>\<rparr>"
| "apply_action (AddMessage m) app = addMessage m app"
| "apply_action (UpdateLastMessage c) app = updateLastMessage c app"
| "apply_action (SetThinkingAgentId a) app = app\<lparr>thinkingAgentId := a\<rparr>"

text \<open>
  What the turn gets from outside: the result of \<^verbatim>\<open>generatePhaseCheck\<close>, the value of
  \<^verbatim>\<open>Math.random()\<close>, the result of \<^verbatim>\<open>generateAgentThought\<close>, the fragments of the speech
  stream and how it ends, and the two readings of \<^verbatim>\<open>Date.now()\<close> for a new message.
\<close>

record turn_inputs =
  phaseCheck :: "js_error + string option"
  math_random :: real
  thoughtResult :: "js_error + string"
  speech :: "string list \<times> js_error option"
  now_id :: nat
  now_ts :: nat

text \<open>
  The loop \<^verbatim>\<open>for await (const chunk of stream) { fullContent += chunk;
  updateLastMessage(fullContent); }\<close>, from the content accumulated so far.
\<close>

fun stream_loop :: "string \<Rightarrow> string list \<Rightarrow> step list" where
  "stream_loop fullContent [] = []"
| "stream_loop fullContent (chunk # rest) =
     Await SpeechNext # Do (UpdateLastMessage (fullContent @ chunk))
       # stream_loop (fullContent @ chunk) rest"

text \<open>The candidates for the next speaker, from the captured state.\<close>

definition candidates :: "MeetingState \<Rightarrow> Agent list" where
  "candidates st =
     (let lastMessage = messages st ! (length (messages st) - 1);
          availableAgents = filter (\<lambda>a. agent_id a \<noteq> senderId lastMessage) (agents st)
      in if length availableAgents > 0 then availableAgents else agents st)"

text \<open>\<^verbatim>\<open>Math.floor(Math.random() * candidates.length)\<close>.\<close>

definition random_index :: "real \<Rightarrow> nat \<Rightarrow> int" where
  "random_index r n = \<lfloor>r * real n\<rfloor>"

text \<open>
  \<^verbatim>\<open>candidates[Math.floor(Math.random() * candidates.length)]\<close>, where the index is
  in range.
\<close>

definition nextSpeaker :: "real \<Rightarrow> MeetingState \<Rightarrow> Agent" where
  "nextSpeaker r st = candidates st ! nat (random_index r (length (candidates st)))"

text \<open>
  The \<^verbatim>\<open>try\<close> block of the turn. Step A awaits the thought; when that fails, control goes
  to \<^verbatim>\<open>catch\<close>. Step B appends the placeholder message and consumes the stream; after the
  last fragment the loop awaits once more, and the stream ends or throws.
\<close>

definition try_block :: "turn_inputs \<Rightarrow> Agent \<Rightarrow> step list" where
  "try_block orc speaker =
     Await (Thought (agent_id speaker))
       # (case thoughtResult orc of
            Inl err \<Rightarrow> []
          | Inr th \<Rightarrow>
              Do (AddMessage \<lparr>message_id = toString (now_id orc),
                              senderId = agent_id speaker,
                              senderName = agent_name speaker,
                              content = [], thought = Some th,
                              timestamp = now_ts orc, message_type = Speech\<rparr>)
                # stream_loop [] (fst (speech orc)) @ [Await SpeechNext])"

text \<open>
  Phase 2 of the turn. On an empty transcript \<^verbatim>\<open>lastMessage\<close> is undefined, and the
  filter reads its \<^verbatim>\<open>senderId\<close> for the first agent; that read, and the read of \<^verbatim>\<open>id\<close>
  of a candidate at an index out of range, throw a TypeError. Both are outside the
  \<^verbatim>\<open>try\<close> block. The \<^verbatim>\<open>catch\<close> clause only logs; \<^verbatim>\<open>finally\<close> clears the
  generating flag and the thinking marker.
\<close>

definition agent_turn :: "turn_inputs \<Rightarrow> App \<Rightarrow> step list \<times> completion" where
  "agent_turn orc app =
     (let st = state app in
      if length (messages st) = 0 \<and> length (agents st) > 0 then
        ([], Threw (TypeError ''Cannot read properties of undefined (reading senderId)''))
      else if length (candidates st) = 0 then
        ([Do (SetIsGenerating False)], Returned)
      else
        (let i = random_index (math_random orc) (length (candidates st)) in
         if i < 0 \<or> int (length (candidates st)) \<le> i then
           ([], Threw (TypeError ''Cannot read properties of undefined (reading id)''))
         else
           (let speaker = nextSpeaker (math_random orc) st in
            ([Do (SetThinkingAgentId (Some (agent_id speaker))), Await (Delay 1500)]
             @ try_block orc speaker
             @ [Do (SetIsGenerating False), Do (SetThinkingAgentId None)],
             Returned))))"

text \<open>The guard at the head of \<^verbatim>\<open>processNextTurn\<close>: true when the turn goes on.\<close>

definition entry_guard :: "App \<Rightarrow> bool" where
  "entry_guard app \<longleftrightarrow>
     \<not> (\<not> isActive (state app) \<or> isGenerating (state app) \<or> stage app \<noteq> Meeting
        \<or> length (agents (state app)) = 0 \<or> isSummaryOpen app)"

definition after :: "step list \<Rightarrow> step list \<times> completion \<Rightarrow> step list \<times> completion" where
  "after pre r = (pre @ fst r, snd r)"

text \<open>
  \<^verbatim>\<open>processNextTurn\<close>, started on \<open>app\<close>: the steps it takes and how it ends. An
  intervention is a truthy result of the phase check, that is a non-empty string.
\<close>

definition processNextTurn :: "turn_inputs \<Rightarrow> App \<Rightarrow> step list \<times> completion" where
  "processNextTurn orc app =
     (if \<not> entry_guard app then ([], NotStarted)
      else if turnCount app > 0 \<and> turnCount app mod 4 = 0 then
        (case phaseCheck orc of
           Inr (Some intervention) \<Rightarrow>
             if intervention \<noteq> [] then
               ([Do (SetIsGenerating True),
                 Await (PhaseCheck (turnCount app)),
                 Do (AddMessage \<lparr>message_id = toString (now_id orc), senderId = ''assistant'',
                                 senderName = assistantName (language (state app)),
                                 content = intervention, thought = None,
                                 timestamp = now_ts orc, message_type = System\<rparr>),
                 Do (SetIsGenerating False)],
                Returned)
             else after [Do (SetIsGenerating True), Await (PhaseCheck (turnCount app))]
                    (agent_turn orc app)
         | _ \<Rightarrow> after [Do (SetIsGenerating True), Await (PhaseCheck (turnCount app))]
                  (agent_turn orc app))
      else after [Do (SetIsGenerating True)] (agent_turn orc app))"


section \<open>App: what else happens while a turn is suspended\<close>

text \<open>
  The user types a text and submits it; a queued timer callback runs; the user presses
  the pause button (\<^verbatim>\<open>isActive: !prev.isActive\<close>).
\<close>

datatype event =
    UserSubmits string nat nat
  | TimerFires
  | TogglePause

fun apply_event :: "(string \<Rightarrow> string) \<Rightarrow> event \<Rightarrow> App \<Rightarrow> App" where
  "apply_event trim (UserSubmits input n1 n2) app =
     handleUserMessage trim n1 n2 (app\<lparr>inputValue := input\<rparr>)"
| "apply_event trim TimerFires app =
     (case timers app of
        [] \<Rightarrow> app
      | (d, cb) # rest \<Rightarrow> run_callback cb (app\<lparr>timers := rest\<rparr>))"
| "apply_event trim TogglePause app =
     app\<lparr>state := (state app)\<lparr>isActive := \<not> isActive (state app)\<rparr>\<rparr>"

text \<open>
  Running the steps of a turn on the live state. \<open>gaps\<close> lists, for each point where the
  turn awaits, the events that are handled before it resumes.
\<close>

fun exec :: "(string \<Rightarrow> string) \<Rightarrow> step list \<Rightarrow> event list list \<Rightarrow> App \<Rightarrow> App" where
  "exec trim [] gaps app = app"
| "exec trim (Do a # steps) gaps app = exec trim steps gaps (apply_action a app)"
| "exec trim (Await c # steps) [] app = exec trim steps [] app"
| "exec trim (Await c # steps) (g # gaps) app =
     exec trim steps gaps (fold (apply_event trim) g app)"

text \<open>A whole turn: the live state when \<^verbatim>\<open>processNextTurn\<close> has ended.\<close>

definition run_turn :: "(string \<Rightarrow> string) \<Rightarrow> turn_inputs \<Rightarrow> event list list \<Rightarrow> App \<Rightarrow> App" where
  "run_turn trim orc gaps app = exec trim (fst (processNextTurn orc app)) gaps app"


section \<open>App: restoring a saved session\<close>

text \<open>
  \<^verbatim>\<open>restoreSession\<close> passes what \<^verbatim>\<open>JSON.parse\<close> returned to \<^verbatim>\<open>setStage\<close>, \<^verbatim>\<open>setState\<close>
  and \<^verbatim>\<open>setReport\<close>; the annotation \<^verbatim>\<open>SavedSessionData\<close> is not checked when the program
  runs. For this function the three cells therefore hold run-time values. With them: the
  item stored under \<^verbatim>\<open>LOCAL_STORAGE_KEY\<close> and the notices shown by \<^verbatim>\<open>alert\<close>.
\<close>

record Session =
  stage_cell :: jsval
  state_cell :: jsval
  report_cell :: jsval
  saved_item :: "jsval json_text option"
  alerts :: "string list"

text \<open>\<^verbatim>\<open>restoreSession\<close>; \<open>l\<close> is the language of the table \<^verbatim>\<open>t\<close> in scope.\<close>

definition restoreSession :: "Language \<Rightarrow> Session \<Rightarrow> Session" where
  "restoreSession l s =
     (case saved_item s of
        None \<Rightarrow> s
      | Some saved \<Rightarrow>
          if saved = Empty_text then s
          else
            (case JSON_parse saved of
               Inl e \<Rightarrow> s\<lparr>alerts := alerts s @ [restoreFail l]\<rparr>
             | Inr parsed \<Rightarrow>
                 (case get_prop parsed ''stage'' of
                    Inl e \<Rightarrow> s\<lparr>alerts := alerts s @ [restoreFail l]\<rparr>
                  | Inr v1 \<Rightarrow>
                      (let s1 = s\<lparr>stage_cell := v1\<rparr> in
                       case get_prop parsed ''state'' of
                         Inl e \<Rightarrow> s1\<lparr>alerts := alerts s1 @ [restoreFail l]\<rparr>
                       | Inr v2 \<Rightarrow>
                           (let s2 = s1\<lparr>state_cell := v2\<rparr> in
                            case get_prop parsed ''report'' of
                              Inl e \<Rightarrow> s2\<lparr>alerts := alerts s2 @ [restoreFail l]\<rparr>
                            | Inr v3 \<Rightarrow> s2\<lparr>report_cell := v3\<rparr>)))))"


section \<open>Auxiliary notions for the statements\<close>

text \<open>A call outcome that \<^verbatim>\<open>callWithRetry\<close> answers with a retry while retries are left.\<close>

definition rate_limited :: "js_error + 'a \<Rightarrow> bool" where
  "rate_limited x = (case x of Inl e \<Rightarrow> isRateLimit e | Inr v \<Rightarrow> False)"

text \<open>
  The rate-limit class in the words of the specification: "status/code 429 or
  RESOURCE_EXHAUSTED". It is compared with \<^const>\<open>isRateLimit\<close> below.
\<close>

definition spec_rate_limit_class :: "js_error \<Rightarrow> bool" where
  "spec_rate_limit_class e \<longleftrightarrow>
     err_status e = JNum 429 \<or> err_code e = JNum 429 \<or> err_status e = JStr ''RESOURCE_EXHAUSTED''"

text \<open>The step that records the chosen speaker, and the step that awaits the phase check.\<close>

fun selects_speaker :: "step \<Rightarrow> bool" where
  "selects_speaker (Do (SetThinkingAgentId (Some a))) = True"
| "selects_speaker s = False"

fun is_phase_check :: "step \<Rightarrow> bool" where
  "is_phase_check (Await (PhaseCheck n)) = True"
| "is_phase_check s = False"

text \<open>
  From one transcript to a later one: no entry was removed, and every entry that was not
  the last one is as it was.
\<close>

definition earlier_kept :: "Message list \<Rightarrow> Message list \<Rightarrow> bool" where
  "earlier_kept ms ms' \<longleftrightarrow> length ms \<le> length ms' \<and> (\<forall>i. Suc i < length ms \<longrightarrow> ms' ! i = ms ! i)"

text \<open>The number of points at which a sequence of steps awaits.\<close>

fun awaits :: "step list \<Rightarrow> nat" where
  "awaits [] = 0"
| "awaits (Do a # steps) = awaits steps"
| "awaits (Await c # steps) = Suc (awaits steps)"


section \<open>Sample inputs\<close>

text \<open>A server error whose message happens to contain the digits 429.\<close>

definition internal_error_4290 :: js_error where
  "internal_error_4290 =
     \<lparr>err_status = JNum 500, err_code = JNum 500,
      err_message = Some ''Internal error (request 4290)''\<rparr>"

definition too_many_requests :: js_error where
  "too_many_requests =
     \<lparr>err_status = JNum 429, err_code = JUndefined, err_message = Some ''Too Many Requests''\<rparr>"

text \<open>A thunk that fails with the same error at every call.\<close>

definition always_failing :: "js_error \<Rightarrow> nat \<Rightarrow> js_error + string" where
  "always_failing e k = Inl e"

text \<open>A thunk that is rate limited exactly twice, then succeeds.\<close>

definition limited_twice :: "nat \<Rightarrow> js_error + string" where
  "limited_twice k = (if k < 2 then Inl too_many_requests else Inr ''roster'')"

text \<open>Two fixed sequences of \<^verbatim>\<open>Math.random()\<close> values.\<close>

definition random_zero :: "nat \<Rightarrow> real" where
  "random_zero k = 0"

definition random_half :: "nat \<Rightarrow> real" where
  "random_half k = 1 / 2"


text \<open>A backend, and a stream connection, that answer every call with status 429.\<close>

definition backend_busy :: "nat \<Rightarrow> js_error + jsval json_text option" where
  "backend_busy k = Inl too_many_requests"

definition connect_busy :: "nat \<Rightarrow> js_error + content_stream" where
  "connect_busy k = Inl too_many_requests"

text \<open>
  A backend whose output is cut off, one that returns a thought, and one whose output
  has a number where the thought should be.
\<close>

definition backend_truncated :: "nat \<Rightarrow> js_error + jsval json_text option" where
  "backend_truncated k = Inr (Some Malformed_text)"

definition backend_agreeing :: "nat \<Rightarrow> js_error + jsval json_text option" where
  "backend_agreeing k = Inr (Some (Json_text (JObj [(''thought'', JStr ''I agree.'')])))"

definition backend_number :: "nat \<Rightarrow> js_error + jsval json_text option" where
  "backend_number k = Inr (Some (Json_text (JObj [(''thought'', JNum 42)])))"

text \<open>\<^verbatim>\<open>String.prototype.trim\<close> on strings of ASCII characters.\<close>

definition is_ascii_space :: "char \<Rightarrow> bool" where
  "is_ascii_space c \<longleftrightarrow> c \<in> set [CHR 0x09, CHR 0x0A, CHR 0x0B, CHR 0x0C, CHR 0x0D, CHR 0x20]"

definition ascii_trim :: "string \<Rightarrow> string" where
  "ascii_trim s = rev (dropWhile is_ascii_space (rev (dropWhile is_ascii_space s)))"

text \<open>Two agents, rosters of one and two, and a meeting started on the roster of two.\<close>

definition ann :: Agent where
  "ann = \<lparr>agent_id = ''agent-1-0'', agent_name = ''Ann'', agent_role = ''Skeptic'',
           personality = ''dry'', avatarId = 1\<rparr>"

definition bob :: Agent where
  "bob = \<lparr>agent_id = ''agent-1-1'', agent_name = ''Bob'', agent_role = ''Optimist'',
           personality = ''warm'', avatarId = 2\<rparr>"

definition roster_of :: "Agent list \<Rightarrow> App" where
  "roster_of as =
     \<lparr>stage = Roles, state = INITIAL_STATE\<lparr>topic := ''Tea'', agents := as\<rparr>, inputValue = [],
      thinkingAgentId = None, isSummaryOpen = False, turnCount = 0, timers = []\<rparr>"

definition meeting_of_two :: App where
  "meeting_of_two = startMeeting 5 (roster_of [ann, bob])"

text \<open>A paused meeting in which the user has typed a message.\<close>

definition paused_with_input :: App where
  "paused_with_input =
     meeting_of_two\<lparr>state := (state meeting_of_two)\<lparr>isActive := False\<rparr>, inputValue := ''hello''\<rparr>"

text \<open>
  A stored snapshot that lacks \<^verbatim>\<open>state.agents\<close>, and a live session in the roster stage
  with that snapshot in the store.
\<close>

definition snapshot_without_agents :: jsval where
  "snapshot_without_agents =
     JObj [(''stage'', JStr ''meeting''),
           (''state'', JObj [(''topic'', JStr ''Old topic''), (''messages'', JArr []),
                             (''isActive'', JBool True), (''isGenerating'', JBool False),
                             (''language'', JStr ''en'')]),
           (''report'', JStr []),
           (''timestamp'', JNum 1700000000000)]"

definition live_session :: Session where
  "live_session =
     \<lparr>stage_cell = JStr ''roles'',
      state_cell = JObj [(''topic'', JStr ''Tea''),
                         (''agents'', JArr [JObj [(''id'', JStr ''agent-1-0'')],
                                            JObj [(''id'', JStr ''agent-1-1'')]]),
                         (''messages'', JArr []),
                         (''isActive'', JBool False), (''isGenerating'', JBool False),
                         (''language'', JStr ''en'')],
      report_cell = JStr [],
      saved_item = Some (Json_text snapshot_without_agents),
      alerts = []\<rparr>"


text \<open>
  What a turn may get from outside: a turn where all goes well, and one whose phase check
  asks for an intervention.
\<close>

definition smooth_turn :: turn_inputs where
  "smooth_turn =
     \<lparr>phaseCheck = Inr None, math_random = 0, thoughtResult = Inr ''I should object.'',
      speech = ([''Hello'', '' world''], None), now_id = 7, now_ts = 8\<rparr>"

definition intervening :: turn_inputs where
  "intervening = smooth_turn\<lparr>phaseCheck := Inr (Some ''Let us move on.'')\<rparr>"

text \<open>The meeting of two when four messages have been counted.\<close>

definition fourth_turn :: App where
  "fourth_turn = meeting_of_two\<lparr>turnCount := 4\<rparr>"

text \<open>
  A roster to which two participants were added within the same millisecond, the meeting
  started on it, and that meeting after its first turn.
\<close>

definition roster_of_twins :: App where
  "roster_of_twins = handleAddAgent 1700 0 (handleAddAgent 1700 0 (roster_of []))"

definition twins_after_first_turn :: App where
  "twins_after_first_turn = run_turn ascii_trim smooth_turn [] (startMeeting 5 roster_of_twins)"


text \<open>
  The user submits a message while a turn is suspended: after the first fragment of the
  speech has arrived, and while the stream is still being connected.
\<close>

definition user_speaks_after_first_fragment :: "event list list" where
  "user_speaks_after_first_fragment = [[], [], [], [UserSubmits ''One question'' 9 10]]"

definition user_speaks_before_first_fragment :: "event list list" where
  "user_speaks_before_first_fragment = [[], [], [UserSubmits ''One question'' 9 10]]"

text \<open>A turn whose speech stream cannot be connected: every attempt is rate limited.\<close>

definition busy_stream_turn :: turn_inputs where
  "busy_stream_turn = smooth_turn\<lparr>speech := generateAgentSpeechStream connect_busy random_zero\<rparr>"


text \<open>
  A session as \<^verbatim>\<open>restoreSession\<close> leaves it after a stored snapshot of the meeting
  stage whose transcript is empty: two agents, active, not generating.
\<close>

definition restored_without_transcript :: App where
  "restored_without_transcript =
     \<lparr>stage = Meeting,
      state = INITIAL_STATE\<lparr>topic := ''Tea'', agents := [ann, bob], isActive := True\<rparr>,
      inputValue = [], thinkingAgentId = None, isSummaryOpen = False, turnCount = 0,
      timers = []\<rparr>"


section \<open>The retry wrapper: properties\<close>

declare callWithRetry.simps [simp del]

declare toString.simps [simp del]

lemma callWithRetry_success:
  "fn k = Inr v \<Longrightarrow> callWithRetry fn random k retries delay = (Inr v, [])"
  by (subst callWithRetry.simps) simp

lemma callWithRetry_give_up:
  "fn k = Inl e \<Longrightarrow> \<not> (isRateLimit e \<and> retries > 0) \<Longrightarrow>
   callWithRetry fn random k retries delay = (Inl e, [])"
  by (subst callWithRetry.simps) auto

lemma callWithRetry_again:
  "fn k = Inl e \<Longrightarrow> isRateLimit e \<Longrightarrow>
   callWithRetry fn random k (Suc r) delay =
     (fst (callWithRetry fn random (Suc k) r (delay * 2)),
      (real delay + random k * 500) # snd (callWithRetry fn random (Suc k) r (delay * 2)))"
  by (subst callWithRetry.simps) (simp add: Let_def)

text \<open>One call of the wrapper either ends with the outcome of this attempt, or waits and
  goes on with one retry less and twice the delay.\<close>

lemma callWithRetry_cases:
  obtains
    (last) "callWithRetry fn random k retries delay = (fn k, [])"
      and "\<not> rate_limited (fn k) \<or> retries = 0"
  | (again) r where "retries = Suc r" and "rate_limited (fn k)"
      and "callWithRetry fn random k retries delay =
        (fst (callWithRetry fn random (Suc k) r (delay * 2)),
         (real delay + random k * 500) # snd (callWithRetry fn random (Suc k) r (delay * 2)))"
proof (cases "fn k")
  case (Inr v)
  then show ?thesis
    using last callWithRetry_success[of fn k v] by (simp add: rate_limited_def)
next
  case (Inl e)
  show ?thesis
  proof (cases "isRateLimit e \<and> retries > 0")
    case True
    then obtain r where "retries = Suc r" by (cases retries) auto
    with True Inl show ?thesis
      using again[of r] callWithRetry_again[of fn k e random r delay]
      by (simp add: rate_limited_def)
  next
    case False
    with Inl show ?thesis
      using last callWithRetry_give_up[of fn k e retries random delay]
      by (auto simp add: rate_limited_def)
  qed
qed

text \<open>The wrapper for any number of retries and any first delay: with \<open>n\<close> waits, calls
  \<open>k .. k + n\<close> were made, every call but the last was rate limited, the result is the
  outcome of the last call, wait \<open>i\<close> is the delay doubled \<open>i\<close> times plus the jitter.\<close>

lemma callWithRetry_run:
  "length (snd (callWithRetry fn random k retries delay)) \<le> retries \<and>
   fst (callWithRetry fn random k retries delay)
     = fn (k + length (snd (callWithRetry fn random k retries delay))) \<and>
   (\<forall>i < length (snd (callWithRetry fn random k retries delay)).
       rate_limited (fn (k + i)) \<and>
       snd (callWithRetry fn random k retries delay) ! i
         = real (delay * 2 ^ i) + random (k + i) * 500) \<and>
   (length (snd (callWithRetry fn random k retries delay)) < retries \<longrightarrow>
       \<not> rate_limited (fn (k + length (snd (callWithRetry fn random k retries delay)))))"
proof (induction retries arbitrary: k delay)
  case 0
  show ?case by (rule callWithRetry_cases[of fn random k 0 delay]) auto
next
  case (Suc n)
  show ?case
  proof (rule callWithRetry_cases[of fn random k "Suc n" delay])
    assume "callWithRetry fn random k (Suc n) delay = (fn k, [])"
      and "\<not> rate_limited (fn k) \<or> Suc n = 0"
    then show ?thesis by simp
  next
    fix r
    assume r: "Suc n = Suc r" "rate_limited (fn k)"
      and eq: "callWithRetry fn random k (Suc n) delay =
        (fst (callWithRetry fn random (Suc k) r (delay * 2)),
         (real delay + random k * 500) # snd (callWithRetry fn random (Suc k) r (delay * 2)))"
    from r have [simp]: "r = n" by simp
    note IH = Suc.IH[of "Suc k" "delay * 2"]
    show ?thesis
      using IH r(2) unfolding eq
      by (auto simp add: nth_Cons' less_Suc_eq_0_disj algebra_simps)
  qed
qed

text \<open>
  C5, as amended. For every function \<open>fn\<close> handed to \<^verbatim>\<open>callWithRetry\<close> with the default
  arguments, where every value of \<^verbatim>\<open>Math.random()\<close> lies in \<open>[0, 1)\<close>, and for the
  failures of \<open>fn\<close> itself, not of a call that \<open>fn\<close> makes and catches: \<open>fn\<close> is
  called \<open>n + 1\<close> times with \<open>n \<le> 3\<close>; each of the first \<open>n\<close> calls failed with an error
  of the rate-limit class, which is status 429, code 429, status RESOURCE_EXHAUSTED or a
  message that contains "429"; wait number \<open>i\<close> is at least \<open>2000 * 2 ^ i\<close> ms and less
  than 500 ms longer; what the wrapper returns or throws is the outcome of the last call;
  and it stops before the fourth call only when the last call succeeded or failed with
  an error outside the class. In particular an error outside the class on the first call
  is thrown at once, with no wait, and four rate-limited calls end in the fourth error.
\<close>

theorem callWithRetry_policy:
  assumes jitter: "\<forall>k. 0 \<le> random k \<and> random k < 1"
  shows "length (snd (callWithRetry_default fn random)) \<le> 3 \<and>
    fst (callWithRetry_default fn random) = fn (length (snd (callWithRetry_default fn random))) \<and>
    (\<forall>i < length (snd (callWithRetry_default fn random)).
        rate_limited (fn i) \<and>
        2000 * 2 ^ i \<le> snd (callWithRetry_default fn random) ! i \<and>
        snd (callWithRetry_default fn random) ! i < 2000 * 2 ^ i + 500) \<and>
    (length (snd (callWithRetry_default fn random)) < 3 \<longrightarrow>
        \<not> rate_limited (fn (length (snd (callWithRetry_default fn random))))) \<and>
    (\<forall>e. fn 0 = Inl e \<and> \<not> isRateLimit e \<longrightarrow> callWithRetry_default fn random = (Inl e, [])) \<and>
    ((\<forall>k \<le> 3. rate_limited (fn k)) \<longrightarrow>
        fst (callWithRetry_default fn random) = fn 3 \<and>
        length (snd (callWithRetry_default fn random)) = 3)"
proof -
  let ?r = "callWithRetry_default fn random"
  let ?n = "length (snd ?r)"
  have run: "?n \<le> 3 \<and> fst ?r = fn ?n \<and>
      (\<forall>i < ?n. rate_limited (fn i) \<and> snd ?r ! i = real (2000 * 2 ^ i) + random i * 500) \<and>
      (?n < 3 \<longrightarrow> \<not> rate_limited (fn ?n))"
    using callWithRetry_run[of fn random 0 3 2000]
    by (simp add: callWithRetry_default_def MAX_RETRIES_def INITIAL_BACKOFF_MS_def)
  have waits: "2000 * 2 ^ i \<le> snd ?r ! i \<and> snd ?r ! i < 2000 * 2 ^ i + 500" if "i < ?n" for i
  proof -
    have "snd ?r ! i = real (2000 * 2 ^ i) + random i * 500"
      using run that by blast
    moreover have "0 \<le> random i * 500" and "random i * 500 < 500"
      using jitter by (simp_all add: mult_less_cancel_right2)
    ultimately show ?thesis by simp
  qed
  have first: "?r = (Inl e, [])" if "fn 0 = Inl e" and "\<not> isRateLimit e" for e
  proof -
    have "\<not> rate_limited (fn 0)"
      using that by (simp add: rate_limited_def)
    with run have "?n = 0"
      by (cases "?n") auto
    with run that show ?thesis
      by (cases ?r) simp
  qed
  have exhausted: "fst ?r = fn 3 \<and> ?n = 3" if "\<forall>k \<le> 3. rate_limited (fn k)"
  proof -
    have "\<not> ?n < 3"
      using run that by auto
    with run have "?n = 3" by simp
    with run show ?thesis by simp
  qed
  show ?thesis
    using run waits first exhausted by blast
qed

theorem callWithRetry_policy_witness:
  "(\<forall>k. 0 \<le> random_half k \<and> random_half k < 1) \<and>
   callWithRetry_default limited_twice random_half = (Inr ''roster'', [2250, 4250])"
proof -
  have range: "\<forall>k. 0 \<le> random_half k \<and> random_half k < 1"
    by (simp add: random_half_def)
  have run: "callWithRetry_default limited_twice random_half = (Inr ''roster'', [2250, 4250])"
    by (simp add: callWithRetry_default_def MAX_RETRIES_def INITIAL_BACKOFF_MS_def
        callWithRetry.simps limited_twice_def isRateLimit_def too_many_requests_def
        random_half_def Let_def)
  show ?thesis
    using range run callWithRetry_policy[OF range, of limited_twice] by simp
qed

text \<open>
  C5, as stated, fails: the claim gives the rate-limit class as "status/code 429 or
  RESOURCE_EXHAUSTED" and lets every other error propagate at once. An error with status
  and code 500 whose message contains "429" is outside that class, and the wrapper retries
  it three times before it throws it.
\<close>

theorem callWithRetry_retries_message_429:
  "\<not> spec_rate_limit_class internal_error_4290 \<and>
   callWithRetry_default (always_failing internal_error_4290) random_zero
     = (Inl internal_error_4290, [2000, 4000, 8000])"
proof -
  have "isRateLimit internal_error_4290"
    by (simp add: isRateLimit_def internal_error_4290_def)
  then have "callWithRetry_default (always_failing internal_error_4290) random_zero
      = (Inl internal_error_4290, [2000, 4000, 8000])"
    by (simp add: callWithRetry_default_def MAX_RETRIES_def INITIAL_BACKOFF_MS_def
        callWithRetry.simps always_failing_def random_zero_def Let_def)
  moreover have "\<not> spec_rate_limit_class internal_error_4290"
    by (simp add: spec_rate_limit_class_def internal_error_4290_def)
  ultimately show ?thesis by simp
qed


section \<open>Thought generation: properties\<close>

text \<open>
  For every sequence of backend outcomes, \<^verbatim>\<open>generateAgentThought\<close> resolves and never
  rejects, and the wrapped function is called once. When the backend call fails, when
  the response has no text or an empty one, when the text does not parse, and when the
  parsed object has no \<^verbatim>\<open>thought\<close>, the result is the string "Thinking..."; when the
  \<^verbatim>\<open>thought\<close> of the parsed object is a string, the result is that string, or
  "Thinking..." for the empty one.
\<close>

lemma generateAgentThought_never_throws:
  "(\<exists>v. generateAgentThought backend random = (Inr v, [])) \<and>
   (\<forall>e. backend 0 = Inl e \<longrightarrow>
      generateAgentThought backend random = (Inr (JStr ''Thinking...''), [])) \<and>
   (backend 0 = Inr None \<longrightarrow>
      generateAgentThought backend random = (Inr (JStr ''Thinking...''), [])) \<and>
   (backend 0 = Inr (Some Empty_text) \<longrightarrow>
      generateAgentThought backend random = (Inr (JStr ''Thinking...''), [])) \<and>
   (backend 0 = Inr (Some Malformed_text) \<longrightarrow>
      generateAgentThought backend random = (Inr (JStr ''Thinking...''), [])) \<and>
   (\<forall>kvs. backend 0 = Inr (Some (Json_text (JObj kvs))) \<and>
        own_property kvs ''thought'' = JUndefined \<longrightarrow>
      generateAgentThought backend random = (Inr (JStr ''Thinking...''), [])) \<and>
   (\<forall>kvs s. backend 0 = Inr (Some (Json_text (JObj kvs))) \<and>
        own_property kvs ''thought'' = JStr s \<longrightarrow>
      generateAgentThought backend random
        = (Inr (JStr (if s = [] then ''Thinking...'' else s)), []))"
proof -
  have total: "\<exists>v. thought_attempt x = Inr v" for x
    by (auto simp add: thought_attempt_def split: sum.splits option.splits json_text.splits)
  have run: "generateAgentThought backend random = (thought_attempt (backend 0), [])"
  proof -
    obtain v where "thought_attempt (backend 0) = Inr v"
      using total by blast
    then show ?thesis
      using callWithRetry_success[of "\<lambda>k. thought_attempt (backend k)" 0 v random]
      by (simp add: generateAgentThought_def callWithRetry_default_def)
  qed
  show ?thesis
    unfolding run using total[of "backend 0"]
    by (auto simp add: thought_attempt_def own_property_def)
qed

lemma generateAgentThought_samples:
  "generateAgentThought backend_busy random_zero = (Inr (JStr ''Thinking...''), []) \<and>
   generateAgentThought backend_truncated random_zero = (Inr (JStr ''Thinking...''), []) \<and>
   generateAgentThought backend_agreeing random_zero = (Inr (JStr ''I agree.''), [])"
  using generateAgentThought_never_throws[of backend_busy random_zero]
    generateAgentThought_never_throws[of backend_truncated random_zero]
    generateAgentThought_never_throws[of backend_agreeing random_zero]
  by (simp add: backend_busy_def backend_truncated_def backend_agreeing_def own_property_def)

text \<open>
  C9: the code breaks the claim. The backend answers with the text
  \<^verbatim>\<open>{"thought": 42}\<close>. The text parses, \<^verbatim>\<open>data.thought\<close> is the number 42, which is
  truthy, and \<^verbatim>\<open>generateAgentThought\<close> resolves to that number: it does not throw, and
  what it returns is not a string.
\<close>

theorem generateAgentThought_returns_number:
  "backend_number 0 = Inr (Some (Json_text (JObj [(''thought'', JNum 42)]))) \<and>
   generateAgentThought backend_number random_zero = (Inr (JNum 42), [])"
proof -
  have "thought_attempt (backend_number k) = Inr (JNum 42)" for k
    by (simp add: thought_attempt_def backend_number_def own_property_def)
  then show ?thesis
    using callWithRetry_success[of "\<lambda>k. thought_attempt (backend_number k)" 0 "JNum 42" random_zero]
    by (simp add: generateAgentThought_def callWithRetry_default_def backend_number_def)
qed


section \<open>Starting the meeting: properties\<close>

text \<open>The handler alone refuses only the empty roster: one agent is enough for it.\<close>

lemma startMeeting_one_agent:
  "length (agents (state app)) = 1 \<Longrightarrow> stage (startMeeting now app) = Meeting"
  by (simp add: startMeeting_def)

text \<open>
  C6. Pressing Start Meeting with fewer than 2 agents in the roster changes nothing: the
  stage and the session state stay as they are. With exactly 2 agents the meeting starts:
  the stage is the meeting stage, the roster is kept, the transcript is the one welcome
  message of the system, the session is active and the turn counter is 0.
\<close>

theorem start_meeting_roster_guard:
  "(length (agents (state app)) < 2 \<longrightarrow> click_Start_Meeting now app = app) \<and>
   (length (agents (state app)) = 2 \<longrightarrow>
      stage (click_Start_Meeting now app) = Meeting \<and>
      agents (state (click_Start_Meeting now app)) = agents (state app) \<and>
      messages (state (click_Start_Meeting now app)) =
        [\<lparr>message_id = ''system-start'', senderId = ''system'', senderName = ''System'',
          content = welcome_content (language (state app)) (topic (state app)),
          thought = None, timestamp = now, message_type = System\<rparr>] \<and>
      isActive (state (click_Start_Meeting now app)) \<and>
      turnCount (click_Start_Meeting now app) = 0)"
  by (simp add: click_Start_Meeting_def Button_click_def startMeeting_def)

theorem start_meeting_roster_guard_witness:
  "length (agents (state (roster_of [ann]))) < 2 \<and>
   click_Start_Meeting 5 (roster_of [ann]) = roster_of [ann] \<and>
   length (agents (state (roster_of [ann, bob]))) = 2 \<and>
   stage (click_Start_Meeting 5 (roster_of [ann, bob])) = Meeting \<and>
   isActive (state (click_Start_Meeting 5 (roster_of [ann, bob])))"
  using start_meeting_roster_guard[of "roster_of [ann]" 5]
    start_meeting_roster_guard[of "roster_of [ann, bob]" 5]
  by (simp add: roster_of_def)


section \<open>User messages: properties\<close>

text \<open>
  C10. Submitting a message that is not blank clears the active flag in the same step
  and queues, with a delay of 2000 ms, the callback that sets the flag; whatever the
  flag was before, and so also when the session was paused. The callback sets the flag
  on any state it runs on: when it is the next timer to fire, the session is active.
\<close>

theorem handleUserMessage_quiet_period:
  assumes "trim (inputValue app) \<noteq> []"
  shows "\<not> isActive (state (handleUserMessage trim n1 n2 app)) \<and>
    timers (handleUserMessage trim n1 n2 app) = timers app @ [(2000, Resume_auto_discussion)] \<and>
    isActive (state (run_callback Resume_auto_discussion later)) \<and>
    (timers app = [] \<longrightarrow>
       isActive (state (apply_event trim TimerFires (handleUserMessage trim n1 n2 app))))"
  using assms by (simp add: handleUserMessage_def addMessage_def Let_def)

theorem handleUserMessage_quiet_period_witness:
  "ascii_trim (inputValue paused_with_input) \<noteq> [] \<and>
   \<not> isActive (state paused_with_input) \<and>
   timers paused_with_input = [] \<and>
   \<not> isActive (state (handleUserMessage ascii_trim 9 10 paused_with_input)) \<and>
   isActive (state (apply_event ascii_trim TimerFires
     (handleUserMessage ascii_trim 9 10 paused_with_input)))"
proof -
  have input: "ascii_trim (inputValue paused_with_input) \<noteq> []"
    by (simp add: paused_with_input_def ascii_trim_def is_ascii_space_def)
  have before: "\<not> isActive (state paused_with_input)" "timers paused_with_input = []"
    by (simp_all add: paused_with_input_def meeting_of_two_def startMeeting_def roster_of_def)
  show ?thesis
    using input before
      handleUserMessage_quiet_period[of ascii_trim paused_with_input 9 10 paused_with_input]
    by simp
qed


section \<open>The scheduler turn: running the steps\<close>

lemma exec_append:
  "exec trim (xs @ ys) gaps app = exec trim ys (drop (awaits xs) gaps) (exec trim xs gaps app)"
proof (induction xs arbitrary: gaps app)
  case Nil
  then show ?case by simp
next
  case (Cons x xs)
  show ?case
  proof (cases x)
    case (Do a)
    then show ?thesis using Cons.IH by simp
  next
    case (Await c)
    then show ?thesis using Cons.IH by (cases gaps) simp_all
  qed
qed

text \<open>No event touches the generating flag or the thinking marker.\<close>

lemma handleUserMessage_flags:
  "isGenerating (state (handleUserMessage trim n1 n2 app)) = isGenerating (state app)"
  "thinkingAgentId (handleUserMessage trim n1 n2 app) = thinkingAgentId app"
  by (simp_all add: handleUserMessage_def addMessage_def Let_def)

lemma apply_event_flags:
  "isGenerating (state (apply_event trim e app)) = isGenerating (state app) \<and>
   thinkingAgentId (apply_event trim e app) = thinkingAgentId app"
proof (cases e)
  case (UserSubmits input n1 n2)
  then show ?thesis by (simp add: handleUserMessage_flags)
next
  case TimerFires
  show ?thesis
  proof (cases "timers app")
    case Nil
    with TimerFires show ?thesis by simp
  next
    case (Cons t rest)
    obtain d cb where "t = (d, cb)" by (cases t)
    with TimerFires Cons show ?thesis by (cases cb) simp
  qed
next
  case TogglePause
  then show ?thesis by simp
qed

lemma events_flags:
  "isGenerating (state (fold (apply_event trim) g app)) = isGenerating (state app) \<and>
   thinkingAgentId (fold (apply_event trim) g app) = thinkingAgentId app"
  by (induction g arbitrary: app) (simp_all add: apply_event_flags)

text \<open>Steps that end with the \<^verbatim>\<open>finally\<close> clause leave both cleared.\<close>

lemma exec_cleanup:
  "isGenerating (state (exec trim
      (xs @ [Do (SetIsGenerating False), Do (SetThinkingAgentId None)]) gaps app)) = False \<and>
   thinkingAgentId (exec trim
      (xs @ [Do (SetIsGenerating False), Do (SetThinkingAgentId None)]) gaps app) = None"
  by (simp add: exec_append)

lemma exec_intervention:
  "\<not> isGenerating (state (exec trim
      [Do (SetIsGenerating True), Await c, Do (AddMessage m), Do (SetIsGenerating False)] gaps app)) \<and>
   thinkingAgentId (exec trim
      [Do (SetIsGenerating True), Await c, Do (AddMessage m), Do (SetIsGenerating False)] gaps app)
     = thinkingAgentId app \<and>
   last (messages (state (exec trim
      [Do (SetIsGenerating True), Await c, Do (AddMessage m), Do (SetIsGenerating False)] gaps app)))
     = m"
  by (cases gaps) (simp_all add: events_flags addMessage_def)


section \<open>The scheduler turn: its shape\<close>

lemma random_index_range:
  assumes "0 \<le> r" and "r < 1" and "0 < n"
  shows "0 \<le> random_index r n \<and> random_index r n < int n"
proof -
  have "0 \<le> r * real n"
    using assms by simp
  moreover have "r * real n < real n"
    using assms by simp
  ultimately show ?thesis
    unfolding random_index_def by (simp add: floor_less_iff)
qed

lemma candidates_nonempty: "agents st \<noteq> [] \<Longrightarrow> candidates st \<noteq> []"
  by (simp add: candidates_def Let_def)

lemma agent_turn_shape:
  assumes "agents (state app) \<noteq> []" and "messages (state app) \<noteq> []"
    and "0 \<le> math_random orc" and "math_random orc < 1"
  shows "agent_turn orc app =
     ([Do (SetThinkingAgentId (Some (agent_id (nextSpeaker (math_random orc) (state app))))),
       Await (Delay 1500)]
      @ try_block orc (nextSpeaker (math_random orc) (state app))
      @ [Do (SetIsGenerating False), Do (SetThinkingAgentId None)], Returned)"
proof -
  have c: "candidates (state app) \<noteq> []"
    using assms(1) by (rule candidates_nonempty)
  then have "0 < length (candidates (state app))"
    by simp
  from random_index_range[OF assms(3,4) this]
  have "\<not> (random_index (math_random orc) (length (candidates (state app))) < 0 \<or>
     int (length (candidates (state app)))
       \<le> random_index (math_random orc) (length (candidates (state app))))"
    by simp
  then show ?thesis
    using assms(2) c by (simp add: agent_turn_def Let_def)
qed

lemma processNextTurn_intervention:
  assumes "entry_guard app" and "0 < turnCount app" and "turnCount app mod 4 = 0"
    and "phaseCheck orc = Inr (Some s)" and "s \<noteq> []"
  shows "processNextTurn orc app =
    ([Do (SetIsGenerating True),
      Await (PhaseCheck (turnCount app)),
      Do (AddMessage \<lparr>message_id = toString (now_id orc), senderId = ''assistant'',
                      senderName = assistantName (language (state app)),
                      content = s, thought = None,
                      timestamp = now_ts orc, message_type = System\<rparr>),
      Do (SetIsGenerating False)], Returned)"
  using assms by (simp add: processNextTurn_def)

lemma processNextTurn_agent:
  assumes "entry_guard app"
    and "\<not> (\<exists>s. 0 < turnCount app \<and> turnCount app mod 4 = 0 \<and>
            phaseCheck orc = Inr (Some s) \<and> s \<noteq> [])"
  shows "processNextTurn orc app =
    after (if 0 < turnCount app \<and> turnCount app mod 4 = 0
           then [Do (SetIsGenerating True), Await (PhaseCheck (turnCount app))]
           else [Do (SetIsGenerating True)]) (agent_turn orc app)"
proof (cases "0 < turnCount app \<and> turnCount app mod 4 = 0")
  case False
  then have "processNextTurn orc app = after [Do (SetIsGenerating True)] (agent_turn orc app)"
    using assms(1) by (auto simp add: processNextTurn_def)
  with False show ?thesis by auto
next
  case True
  show ?thesis
  proof (cases "phaseCheck orc")
    case (Inl e)
    with True assms(1) show ?thesis by (simp add: processNextTurn_def)
  next
    case (Inr r)
    show ?thesis
    proof (cases r)
      case None
      with Inr True assms(1) show ?thesis by (simp add: processNextTurn_def)
    next
      case (Some s)
      with Inr True assms(2) have "s = []" by simp
      with Some Inr True assms(1) show ?thesis by (simp add: processNextTurn_def)
    qed
  qed
qed

lemma stream_loop_plain:
  "\<not> list_ex is_phase_check (stream_loop acc cs) \<and> \<not> list_ex selects_speaker (stream_loop acc cs)"
  by (induction cs arbitrary: acc) simp_all

lemma try_block_plain:
  "\<not> list_ex is_phase_check (try_block orc speaker) \<and>
   \<not> list_ex selects_speaker (try_block orc speaker)"
  by (cases "thoughtResult orc") (simp_all add: try_block_def stream_loop_plain)

lemma agent_turn_no_phase_check: "\<not> list_ex is_phase_check (fst (agent_turn orc app))"
  by (simp add: agent_turn_def Let_def try_block_plain)


section \<open>The scheduler turn: properties\<close>

text \<open>
  Every turn that passes the entry guard on a transcript that is not empty returns,
  whatever the phase check, the thought and the speech stream do and whatever events are
  handled while it is suspended. When it has returned, the generating flag is false. When
  the turn chose a speaker, the thinking marker is cleared; when it did not, the turn has
  not touched the marker.
\<close>

lemma processNextTurn_clears_generating:
  assumes "entry_guard app" and "messages (state app) \<noteq> []"
    and "0 \<le> math_random orc" and "math_random orc < 1"
  shows "snd (processNextTurn orc app) = Returned \<and>
    \<not> isGenerating (state (run_turn trim orc gaps app)) \<and>
    (list_ex selects_speaker (fst (processNextTurn orc app)) \<longrightarrow>
       thinkingAgentId (run_turn trim orc gaps app) = None) \<and>
    (\<not> list_ex selects_speaker (fst (processNextTurn orc app)) \<longrightarrow>
       thinkingAgentId (run_turn trim orc gaps app) = thinkingAgentId app)"
proof (cases "\<exists>s. 0 < turnCount app \<and> turnCount app mod 4 = 0 \<and>
    phaseCheck orc = Inr (Some s) \<and> s \<noteq> []")
  case True
  then obtain s where s: "0 < turnCount app" "turnCount app mod 4 = 0"
      "phaseCheck orc = Inr (Some s)" "s \<noteq> []"
    by auto
  show ?thesis
    unfolding run_turn_def processNextTurn_intervention[OF assms(1) s]
    using exec_intervention[of trim "PhaseCheck (turnCount app)" _ gaps app]
    by simp
next
  case False
  have ag: "agents (state app) \<noteq> []"
    using assms(1) by (simp add: entry_guard_def)
  define pre where "pre = (if 0 < turnCount app \<and> turnCount app mod 4 = 0
           then [Do (SetIsGenerating True), Await (PhaseCheck (turnCount app))]
           else [Do (SetIsGenerating True)])"
  define body where "body = pre @
      [Do (SetThinkingAgentId (Some (agent_id (nextSpeaker (math_random orc) (state app))))),
       Await (Delay 1500)]
      @ try_block orc (nextSpeaker (math_random orc) (state app))"
  have p: "processNextTurn orc app =
      (body @ [Do (SetIsGenerating False), Do (SetThinkingAgentId None)], Returned)"
    using processNextTurn_agent[OF assms(1) False]
    by (simp add: after_def agent_turn_shape[OF ag assms(2,3,4)] pre_def body_def)
  have sel: "list_ex selects_speaker body"
    by (simp add: body_def)
  show ?thesis
    unfolding run_turn_def p
    using exec_cleanup[of trim body gaps app] sel
    by simp
qed


text \<open>
  C2: the code breaks the claim. The session was restored from a stored snapshot of the
  meeting stage whose transcript is empty. The turn passes the entry guard and sets the
  generating flag. In the speaker selection \<^verbatim>\<open>lastMessage\<close> is undefined, and reading its
  \<^verbatim>\<open>senderId\<close> throws before the \<^verbatim>\<open>try\<close> statement is entered: the turn ends there, the
  \<^verbatim>\<open>finally\<close> clause never runs, and the generating flag stays true.
\<close>

theorem processNextTurn_throws_on_empty_transcript:
  "messages (state restored_without_transcript) = [] \<and>
   isActive (state restored_without_transcript) \<and>
   \<not> isGenerating (state restored_without_transcript) \<and>
   processNextTurn smooth_turn restored_without_transcript =
     ([Do (SetIsGenerating True)],
      Threw (TypeError ''Cannot read properties of undefined (reading senderId)'')) \<and>
   isGenerating (state (run_turn ascii_trim smooth_turn [] restored_without_transcript))"
  by (simp add: run_turn_def processNextTurn_def entry_guard_def after_def agent_turn_def
      restored_without_transcript_def INITIAL_STATE_def)

text \<open>
  C4. In every cycle that passes the entry guard, a phase check is awaited if and only
  if the turn counter read at the start of the cycle is a positive multiple of 4, and the
  check is given that counter. When the check returns an intervention, that is a string
  that is not empty, the cycle consists of four steps: it sets the generating flag,
  awaits the check, appends a message of type system whose sender is the assistant and
  whose content is the intervention, and clears the generating flag. It returns then:
  the appended message is the last of the transcript, the flag is false, and no speaker
  has been chosen.
\<close>

theorem phase_check_cadence:
  assumes "entry_guard app"
  shows "(list_ex is_phase_check (fst (processNextTurn orc app))
       \<longleftrightarrow> 0 < turnCount app \<and> turnCount app mod 4 = 0) \<and>
    (0 < turnCount app \<and> turnCount app mod 4 = 0 \<longrightarrow>
       Await (PhaseCheck (turnCount app)) \<in> set (fst (processNextTurn orc app))) \<and>
    (\<forall>s. 0 < turnCount app \<and> turnCount app mod 4 = 0 \<and>
         phaseCheck orc = Inr (Some s) \<and> s \<noteq> [] \<longrightarrow>
       processNextTurn orc app =
         ([Do (SetIsGenerating True),
           Await (PhaseCheck (turnCount app)),
           Do (AddMessage \<lparr>message_id = toString (now_id orc), senderId = ''assistant'',
                           senderName = assistantName (language (state app)),
                           content = s, thought = None,
                           timestamp = now_ts orc, message_type = System\<rparr>),
           Do (SetIsGenerating False)], Returned) \<and>
       last (messages (state (run_turn trim orc gaps app))) =
         \<lparr>message_id = toString (now_id orc), senderId = ''assistant'',
          senderName = assistantName (language (state app)),
          content = s, thought = None,
          timestamp = now_ts orc, message_type = System\<rparr> \<and>
       \<not> isGenerating (state (run_turn trim orc gaps app)) \<and>
       \<not> list_ex selects_speaker (fst (processNextTurn orc app)))"
proof -
  let ?due = "0 < turnCount app \<and> turnCount app mod 4 = 0"
  have cadence: "list_ex is_phase_check (fst (processNextTurn orc app)) \<longleftrightarrow> ?due"
    and given: "?due \<longrightarrow> Await (PhaseCheck (turnCount app)) \<in> set (fst (processNextTurn orc app))"
  proof -
    show "list_ex is_phase_check (fst (processNextTurn orc app)) \<longleftrightarrow> ?due"
    proof (cases "\<exists>s. ?due \<and> phaseCheck orc = Inr (Some s) \<and> s \<noteq> []")
      case True
      then obtain s where "0 < turnCount app" "turnCount app mod 4 = 0"
          "phaseCheck orc = Inr (Some s)" "s \<noteq> []"
        by auto
      then show ?thesis
        using processNextTurn_intervention[OF assms, of orc s] by simp
    next
      case False
      then have "\<not> (\<exists>s. 0 < turnCount app \<and> turnCount app mod 4 = 0 \<and>
            phaseCheck orc = Inr (Some s) \<and> s \<noteq> [])"
        by simp
      from processNextTurn_agent[OF assms this] show ?thesis
        using agent_turn_no_phase_check[of orc app] by (simp add: after_def)
    qed
    show "?due \<longrightarrow> Await (PhaseCheck (turnCount app)) \<in> set (fst (processNextTurn orc app))"
    proof (cases "\<exists>s. ?due \<and> phaseCheck orc = Inr (Some s) \<and> s \<noteq> []")
      case True
      then obtain s where "0 < turnCount app" "turnCount app mod 4 = 0"
          "phaseCheck orc = Inr (Some s)" "s \<noteq> []"
        by auto
      then show ?thesis
        using processNextTurn_intervention[OF assms, of orc s] by simp
    next
      case False
      then have "\<not> (\<exists>s. 0 < turnCount app \<and> turnCount app mod 4 = 0 \<and>
            phaseCheck orc = Inr (Some s) \<and> s \<noteq> [])"
        by simp
      from processNextTurn_agent[OF assms this] show ?thesis
        by (simp add: after_def)
    qed
  qed
  have intervention:
    "processNextTurn orc app =
         ([Do (SetIsGenerating True),
           Await (PhaseCheck (turnCount app)),
           Do (AddMessage \<lparr>message_id = toString (now_id orc), senderId = ''assistant'',
                           senderName = assistantName (language (state app)),
                           content = s, thought = None,
                           timestamp = now_ts orc, message_type = System\<rparr>),
           Do (SetIsGenerating False)], Returned) \<and>
       last (messages (state (run_turn trim orc gaps app))) =
         \<lparr>message_id = toString (now_id orc), senderId = ''assistant'',
          senderName = assistantName (language (state app)),
          content = s, thought = None,
          timestamp = now_ts orc, message_type = System\<rparr> \<and>
       \<not> isGenerating (state (run_turn trim orc gaps app)) \<and>
       \<not> list_ex selects_speaker (fst (processNextTurn orc app))"
    if "?due \<and> phaseCheck orc = Inr (Some s) \<and> s \<noteq> []" for s
  proof -
    from that have s: "0 < turnCount app" "turnCount app mod 4 = 0"
        "phaseCheck orc = Inr (Some s)" "s \<noteq> []"
      by auto
    show ?thesis
      unfolding run_turn_def processNextTurn_intervention[OF assms s]
      using exec_intervention[of trim "PhaseCheck (turnCount app)" _ gaps app]
      by simp
  qed
  have third: "\<forall>s. 0 < turnCount app \<and> turnCount app mod 4 = 0 \<and>
         phaseCheck orc = Inr (Some s) \<and> s \<noteq> [] \<longrightarrow>
       processNextTurn orc app =
         ([Do (SetIsGenerating True),
           Await (PhaseCheck (turnCount app)),
           Do (AddMessage \<lparr>message_id = toString (now_id orc), senderId = ''assistant'',
                           senderName = assistantName (language (state app)),
                           content = s, thought = None,
                           timestamp = now_ts orc, message_type = System\<rparr>),
           Do (SetIsGenerating False)], Returned) \<and>
       last (messages (state (run_turn trim orc gaps app))) =
         \<lparr>message_id = toString (now_id orc), senderId = ''assistant'',
          senderName = assistantName (language (state app)),
          content = s, thought = None,
          timestamp = now_ts orc, message_type = System\<rparr> \<and>
       \<not> isGenerating (state (run_turn trim orc gaps app)) \<and>
       \<not> list_ex selects_speaker (fst (processNextTurn orc app))"
  proof (intro allI impI)
    fix s
    assume "0 < turnCount app \<and> turnCount app mod 4 = 0 \<and>
         phaseCheck orc = Inr (Some s) \<and> s \<noteq> []"
    then have "?due \<and> phaseCheck orc = Inr (Some s) \<and> s \<noteq> []"
      by simp
    then show "processNextTurn orc app =
         ([Do (SetIsGenerating True),
           Await (PhaseCheck (turnCount app)),
           Do (AddMessage \<lparr>message_id = toString (now_id orc), senderId = ''assistant'',
                           senderName = assistantName (language (state app)),
                           content = s, thought = None,
                           timestamp = now_ts orc, message_type = System\<rparr>),
           Do (SetIsGenerating False)], Returned) \<and>
       last (messages (state (run_turn trim orc gaps app))) =
         \<lparr>message_id = toString (now_id orc), senderId = ''assistant'',
          senderName = assistantName (language (state app)),
          content = s, thought = None,
          timestamp = now_ts orc, message_type = System\<rparr> \<and>
       \<not> isGenerating (state (run_turn trim orc gaps app)) \<and>
       \<not> list_ex selects_speaker (fst (processNextTurn orc app))"
      by (rule intervention)
  qed
  show ?thesis
    by (rule conjI[OF cadence conjI[OF given third]])
qed

theorem phase_check_cadence_witness:
  "entry_guard fourth_turn \<and> 0 < turnCount fourth_turn \<and> turnCount fourth_turn mod 4 = 0 \<and>
   phaseCheck intervening = Inr (Some ''Let us move on.'') \<and>
   list_ex is_phase_check (fst (processNextTurn intervening fourth_turn)) \<and>
   \<not> list_ex is_phase_check (fst (processNextTurn intervening meeting_of_two)) \<and>
   senderId (last (messages (state (run_turn ascii_trim intervening [] fourth_turn)))) = ''assistant'' \<and>
   content (last (messages (state (run_turn ascii_trim intervening [] fourth_turn))))
     = ''Let us move on.'' \<and>
   message_type (last (messages (state (run_turn ascii_trim intervening [] fourth_turn)))) = System \<and>
   \<not> isGenerating (state (run_turn ascii_trim intervening [] fourth_turn)) \<and>
   \<not> list_ex selects_speaker (fst (processNextTurn intervening fourth_turn))"
proof -
  have g0: "entry_guard meeting_of_two" and t0: "turnCount meeting_of_two = 0"
    by (simp_all add: entry_guard_def meeting_of_two_def startMeeting_def roster_of_def
        INITIAL_STATE_def)
  have g: "entry_guard fourth_turn" and t: "turnCount fourth_turn = 4"
    using g0 by (simp_all add: entry_guard_def fourth_turn_def)
  have p: "phaseCheck intervening = Inr (Some ''Let us move on.'')"
    by (simp add: intervening_def smooth_turn_def)
  show ?thesis
    using g t t0 p
      phase_check_cadence[OF g, of intervening ascii_trim "[]"]
      phase_check_cadence[OF g0, of intervening ascii_trim "[]"]
    by simp
qed

text \<open>When two agents of the roster have different identifiers, one is not the last sender.\<close>

lemma someone_else:
  assumes "a \<in> set as" and "b \<in> set as" and "agent_id a \<noteq> agent_id b"
  shows "filter (\<lambda>c. agent_id c \<noteq> x) as \<noteq> []"
proof -
  have "agent_id a \<noteq> x \<or> agent_id b \<noteq> x"
    using assms(3) by auto
  with assms(1,2) show ?thesis
    by (auto simp add: filter_empty_conv)
qed

text \<open>
  In every turn on a transcript that is not empty, with at least 2 agents in the roster
  and the value of \<^verbatim>\<open>Math.random()\<close> in \<open>[0, 1)\<close>: the only speaker the turn records is
  \<^const>\<open>nextSpeaker\<close>; it is one of the candidates; the candidates are the agents whose
  identifier is not the sender of the last message of the transcript, and all agents
  only when no such agent exists; and when two agents of the roster have different
  identifiers, the identifier of the chosen speaker is not that sender.
\<close>

lemma speaker_selection:
  assumes "messages (state app) \<noteq> []" and "2 \<le> length (agents (state app))"
    and "0 \<le> math_random orc" and "math_random orc < 1"
  shows "(\<forall>x. Do (SetThinkingAgentId (Some x)) \<in> set (fst (processNextTurn orc app)) \<longrightarrow>
        x = agent_id (nextSpeaker (math_random orc) (state app))) \<and>
    nextSpeaker (math_random orc) (state app) \<in> set (candidates (state app)) \<and>
    candidates (state app) =
      (if filter (\<lambda>a. agent_id a \<noteq> senderId (last (messages (state app)))) (agents (state app)) = []
       then agents (state app)
       else filter (\<lambda>a. agent_id a \<noteq> senderId (last (messages (state app)))) (agents (state app))) \<and>
    ((\<exists>a \<in> set (agents (state app)). \<exists>b \<in> set (agents (state app)). agent_id a \<noteq> agent_id b) \<longrightarrow>
       agent_id (nextSpeaker (math_random orc) (state app))
         \<noteq> senderId (last (messages (state app))))"
proof -
  let ?st = "state app"
  let ?others = "filter (\<lambda>a. agent_id a \<noteq> senderId (last (messages ?st))) (agents ?st)"
  have ag: "agents ?st \<noteq> []"
    using assms(2) by auto
  have cands: "candidates ?st = (if ?others = [] then agents ?st else ?others)"
    using assms(1) by (simp add: candidates_def Let_def last_conv_nth)
  have c: "candidates ?st \<noteq> []"
    using ag by (rule candidates_nonempty)
  then have "0 < length (candidates ?st)"
    by simp
  from random_index_range[OF assms(3,4) this]
  have "nat (random_index (math_random orc) (length (candidates ?st))) < length (candidates ?st)"
    by linarith
  then have mem: "nextSpeaker (math_random orc) ?st \<in> set (candidates ?st)"
    by (simp add: nextSpeaker_def)
  have other: "agent_id (nextSpeaker (math_random orc) ?st) \<noteq> senderId (last (messages ?st))"
    if "\<exists>a \<in> set (agents ?st). \<exists>b \<in> set (agents ?st). agent_id a \<noteq> agent_id b"
  proof -
    from that obtain a b where "a \<in> set (agents ?st)" "b \<in> set (agents ?st)"
        "agent_id a \<noteq> agent_id b"
      by blast
    from someone_else[OF this] have "?others \<noteq> []" .
    with cands mem have "nextSpeaker (math_random orc) ?st \<in> set ?others"
      by simp
    then show ?thesis by simp
  qed
  have only: "x = agent_id (nextSpeaker (math_random orc) ?st)"
    if "Do (SetThinkingAgentId (Some x)) \<in> set (fst (processNextTurn orc app))" for x
  proof -
    have no: "Do (SetThinkingAgentId (Some x)) \<notin> set (try_block orc sp)" for sp
      using try_block_plain[of orc sp] by (auto simp add: list_ex_iff)
    show ?thesis
    proof (cases "entry_guard app")
      case False
      with that show ?thesis by (simp add: processNextTurn_def)
    next
      case g: True
      show ?thesis
      proof (cases "\<exists>s. 0 < turnCount app \<and> turnCount app mod 4 = 0 \<and>
          phaseCheck orc = Inr (Some s) \<and> s \<noteq> []")
        case True
        then obtain s where "0 < turnCount app" "turnCount app mod 4 = 0"
            "phaseCheck orc = Inr (Some s)" "s \<noteq> []"
          by auto
        from processNextTurn_intervention[OF g this] that show ?thesis
          by simp
      next
        case False
        from processNextTurn_agent[OF g False] that no show ?thesis
          by (auto simp add: after_def agent_turn_shape[OF ag assms(1,3,4)] split: if_splits)
      qed
    qed
  qed
  show ?thesis
    using only mem cands other by blast
qed

text \<open>
  C3: the code breaks the claim. \<^verbatim>\<open>handleAddAgent\<close> makes the identifier of a new agent
  from the time alone, so two participants added within one millisecond carry the same
  identifier. The meeting starts on that roster of 2, and one of the two speaks in the
  first turn. In the next turn the exclusion of the last sender leaves no agent, the
  scheduler falls back to the whole roster, and the speaker it records has the identifier
  of the sender of the last message.
\<close>

theorem speaker_repeats_among_twins:
  "map agent_id (agents (state roster_of_twins)) = [''agent-1700'', ''agent-1700''] \<and>
   length (agents (state twins_after_first_turn)) = 2 \<and>
   senderId (last (messages (state twins_after_first_turn))) = ''agent-1700'' \<and>
   agent_id (nextSpeaker (math_random smooth_turn) (state twins_after_first_turn)) = ''agent-1700'' \<and>
   take 2 (fst (processNextTurn smooth_turn twins_after_first_turn))
     = [Do (SetIsGenerating True), Do (SetThinkingAgentId (Some ''agent-1700''))]"
  by (simp add: twins_after_first_turn_def run_turn_def processNextTurn_def entry_guard_def
      after_def agent_turn_def try_block_def candidates_def nextSpeaker_def random_index_def
      smooth_turn_def roster_of_twins_def handleAddAgent_def roster_of_def INITIAL_STATE_def
      startMeeting_def addMessage_def updateLastMessage_def toString.simps Let_def)


section \<open>The transcript during a turn\<close>

lemma earlier_kept_refl: "earlier_kept ms ms"
  by (simp add: earlier_kept_def)

lemma earlier_kept_trans:
  "earlier_kept ms ms' \<Longrightarrow> earlier_kept ms' ms'' \<Longrightarrow> earlier_kept ms ms''"
  by (auto simp add: earlier_kept_def)

lemma addMessage_keeps: "earlier_kept (messages (state app)) (messages (state (addMessage m app)))"
  by (simp add: earlier_kept_def addMessage_def nth_append)

lemma updateLastMessage_keeps:
  "earlier_kept (messages (state app)) (messages (state (updateLastMessage c app)))"
  by (simp add: earlier_kept_def updateLastMessage_def Let_def)

lemma apply_action_keeps:
  "earlier_kept (messages (state app)) (messages (state (apply_action a app)))"
  by (cases a) (simp_all add: addMessage_keeps updateLastMessage_keeps earlier_kept_refl)

lemma handleUserMessage_keeps:
  "earlier_kept (messages (state app)) (messages (state (handleUserMessage trim n1 n2 app)))"
  by (simp add: handleUserMessage_def Let_def earlier_kept_def addMessage_def nth_append)

lemma apply_event_keeps:
  "earlier_kept (messages (state app)) (messages (state (apply_event trim e app)))"
proof (cases e)
  case (UserSubmits input n1 n2)
  then show ?thesis
    using handleUserMessage_keeps[of "app\<lparr>inputValue := input\<rparr>" trim n1 n2] by simp
next
  case TimerFires
  show ?thesis
  proof (cases "timers app")
    case Nil
    with TimerFires show ?thesis by (simp add: earlier_kept_refl)
  next
    case (Cons t rest)
    obtain d cb where "t = (d, cb)" by (cases t)
    with TimerFires Cons show ?thesis by (cases cb) (simp add: earlier_kept_refl)
  qed
next
  case TogglePause
  then show ?thesis by (simp add: earlier_kept_refl)
qed

lemma events_keep:
  "earlier_kept (messages (state app)) (messages (state (fold (apply_event trim) g app)))"
proof (induction g arbitrary: app)
  case Nil
  then show ?case by (simp add: earlier_kept_refl)
next
  case (Cons e g)
  show ?case
    using earlier_kept_trans[OF apply_event_keeps[of app trim e] Cons.IH[of "apply_event trim e app"]]
    by simp
qed

text \<open>
  Through the steps of a turn and the events handled while it is suspended, no entry of
  the transcript is removed, and an entry that is not the last one never changes again.
\<close>

lemma exec_keeps_earlier_messages:
  "earlier_kept (messages (state app)) (messages (state (exec trim steps gaps app)))"
proof (induction steps arbitrary: gaps app)
  case Nil
  then show ?case by (simp add: earlier_kept_refl)
next
  case (Cons x steps)
  show ?case
  proof (cases x)
    case (Do a)
    then show ?thesis
      using earlier_kept_trans[OF apply_action_keeps[of app a] Cons.IH[of "apply_action a app" gaps]]
      by simp
  next
    case (Await c)
    show ?thesis
    proof (cases gaps)
      case Nil
      with Await show ?thesis using Cons.IH[of app "[]"] by simp
    next
      case (Cons g rest)
      with Await show ?thesis
        using earlier_kept_trans[OF events_keep[of app trim g]
            Cons.IH[of "fold (apply_event trim) g app" rest]]
        by simp
    qed
  qed
qed

text \<open>
  \<^verbatim>\<open>startMeeting\<close> seeds the transcript, and neither a turn nor an event removes an
  entry: a transcript that is not empty stays so.
\<close>

lemma startMeeting_seeds_transcript:
  "agents (state app) \<noteq> [] \<Longrightarrow> messages (state (startMeeting now app)) \<noteq> []"
  by (simp add: startMeeting_def)

lemma exec_keeps_transcript_nonempty:
  "messages (state app) \<noteq> [] \<Longrightarrow> messages (state (exec trim steps gaps app)) \<noteq> []"
  using exec_keeps_earlier_messages[of app trim steps gaps]
  by (auto simp add: earlier_kept_def)

text \<open>
  C1: the code breaks the claim. The agent's turn appends its placeholder and streams
  "Hello", then " world". The user submits "One question" between the two fragments.
  The update for the second fragment is written to the entry that is last at that
  moment: the message of the user, whose content becomes "Hello world", while the
  message the turn appended keeps "Hello".
\<close>

theorem stream_overwrites_user_message:
  "map senderId (messages (state
      (run_turn ascii_trim smooth_turn user_speaks_after_first_fragment meeting_of_two)))
     = [''system'', ''agent-1-0'', ''user''] \<and>
   map content (tl (messages (state
      (run_turn ascii_trim smooth_turn user_speaks_after_first_fragment meeting_of_two))))
     = [''Hello'', ''Hello world'']"
  by (simp add: run_turn_def processNextTurn_def entry_guard_def after_def agent_turn_def
      try_block_def candidates_def nextSpeaker_def random_index_def smooth_turn_def
      user_speaks_after_first_fragment_def meeting_of_two_def roster_of_def INITIAL_STATE_def
      startMeeting_def addMessage_def updateLastMessage_def handleUserMessage_def
      ascii_trim_def is_ascii_space_def ann_def bob_def Let_def)


section \<open>The speech stream: properties\<close>

text \<open>The generator never throws to its consumer.\<close>

lemma generateAgentSpeechStream_returns: "snd (generateAgentSpeechStream connect random) = None"
  by (simp add: generateAgentSpeechStream_def split: sum.splits option.splits)

text \<open>When the connection fails after the retries, the generator yields the notice, and
  nothing else.\<close>

lemma generateAgentSpeechStream_on_failure:
  "fst (callWithRetry_default connect random) = Inl e \<Longrightarrow>
   generateAgentSpeechStream connect random = ([stream_error_notice], None)"
  by (simp add: generateAgentSpeechStream_def)

text \<open>
  When the connection fails after the retries and no event is handled while the turn is
  suspended, the turn appends one message, sent by the chosen speaker, and its final
  content is the notice.
\<close>

lemma failed_stream_notice_without_events:
  assumes "entry_guard app" and "messages (state app) \<noteq> []"
    and "0 \<le> math_random orc" and "math_random orc < 1"
    and "phaseCheck orc = Inr None"
    and "thoughtResult orc = Inr th"
    and "speech orc = generateAgentSpeechStream connect random"
    and "fst (callWithRetry_default connect random) = Inl e"
  shows "length (messages (state (run_turn trim orc [] app))) = Suc (length (messages (state app))) \<and>
    senderId (last (messages (state (run_turn trim orc [] app))))
      = agent_id (nextSpeaker (math_random orc) (state app)) \<and>
    content (last (messages (state (run_turn trim orc [] app)))) = stream_error_notice"
proof -
  have ag: "agents (state app) \<noteq> []"
    using assms(1) by (simp add: entry_guard_def)
  have none: "\<not> (\<exists>s. 0 < turnCount app \<and> turnCount app mod 4 = 0 \<and>
      phaseCheck orc = Inr (Some s) \<and> s \<noteq> [])"
    using assms(5) by simp
  have sp: "speech orc = ([stream_error_notice], None)"
    using assms(7) generateAgentSpeechStream_on_failure[OF assms(8)] by simp
  show ?thesis
    unfolding run_turn_def processNextTurn_agent[OF assms(1) none]
      agent_turn_shape[OF ag assms(2,3,4)]
    by (simp add: after_def try_block_def assms(6) sp addMessage_def updateLastMessage_def Let_def)
qed

text \<open>
  C8: the code breaks the last part of the claim. Every attempt to connect the stream is
  rate limited, so the generator yields the one notice and ends; it does not throw. The
  user submits "One question" while the connection is still retried. The notice is then
  written to the message of the user, and the content of the message that hosts the
  speech stays empty.
\<close>

theorem failed_stream_notice_lands_on_user_message:
  "generateAgentSpeechStream connect_busy random_zero = ([stream_error_notice], None) \<and>
   map senderId (messages (state
      (run_turn ascii_trim busy_stream_turn user_speaks_before_first_fragment meeting_of_two)))
     = [''system'', ''agent-1-0'', ''user''] \<and>
   map content (tl (messages (state
      (run_turn ascii_trim busy_stream_turn user_speaks_before_first_fragment meeting_of_two))))
     = [[], stream_error_notice]"
proof -
  have "isRateLimit too_many_requests"
    by (simp add: isRateLimit_def too_many_requests_def)
  then have "fst (callWithRetry_default connect_busy random_zero) = Inl too_many_requests"
    by (simp add: callWithRetry_default_def MAX_RETRIES_def INITIAL_BACKOFF_MS_def
        callWithRetry.simps connect_busy_def Let_def)
  then have s: "generateAgentSpeechStream connect_busy random_zero = ([stream_error_notice], None)"
    by (rule generateAgentSpeechStream_on_failure)
  show ?thesis
    unfolding s
    by (simp add: run_turn_def processNextTurn_def entry_guard_def after_def agent_turn_def
        try_block_def candidates_def nextSpeaker_def random_index_def busy_stream_turn_def
        smooth_turn_def s user_speaks_before_first_fragment_def meeting_of_two_def roster_of_def
        INITIAL_STATE_def startMeeting_def addMessage_def updateLastMessage_def
        handleUserMessage_def ascii_trim_def is_ascii_space_def ann_def bob_def Let_def)
qed


section \<open>Restoring a saved session: properties\<close>

text \<open>
  When nothing is stored, or the empty string, nothing happens. When the stored item is
  not JSON, or is the JSON value null, the notice is shown and the stage, the state and
  the report of the live session are as before; the item stays in the store. When the
  stored item parses to an object, its three members are written to the live session.
\<close>

lemma restoreSession_outcomes:
  "(saved_item s = None \<longrightarrow> restoreSession l s = s) \<and>
   (saved_item s = Some Empty_text \<longrightarrow> restoreSession l s = s) \<and>
   (saved_item s = Some Malformed_text \<longrightarrow>
      restoreSession l s = s\<lparr>alerts := alerts s @ [restoreFail l]\<rparr>) \<and>
   (saved_item s = Some (Json_text JNull) \<longrightarrow>
      restoreSession l s = s\<lparr>alerts := alerts s @ [restoreFail l]\<rparr>) \<and>
   (\<forall>kvs. saved_item s = Some (Json_text (JObj kvs)) \<longrightarrow>
      restoreSession l s =
        s\<lparr>stage_cell := own_property kvs ''stage'',
          state_cell := own_property kvs ''state'',
          report_cell := own_property kvs ''report''\<rparr>)"
  by (simp add: restoreSession_def)

text \<open>
  C7: the code breaks the claim. The stored snapshot parses but has no \<^verbatim>\<open>state.agents\<close>.
  \<^verbatim>\<open>restoreSession\<close> writes its stage, its state and its report to the live session: the
  stage is now the meeting, the topic is the stored one, and the roster is undefined. No
  notice is shown, and the snapshot is still in the store.
\<close>

theorem restoreSession_applies_snapshot_without_agents:
  "get_prop (state_cell live_session) ''topic'' = Inr (JStr ''Tea'') \<and>
   stage_cell (restoreSession En live_session) = JStr ''meeting'' \<and>
   get_prop (state_cell (restoreSession En live_session)) ''topic'' = Inr (JStr ''Old topic'') \<and>
   get_prop (state_cell (restoreSession En live_session)) ''agents'' = Inr JUndefined \<and>
   alerts (restoreSession En live_session) = [] \<and>
   saved_item (restoreSession En live_session) = Some (Json_text snapshot_without_agents)"
  by (simp add: restoreSession_def own_property_def live_session_def snapshot_without_agents_def)

end
